theory Spec2Isabelle
  imports Main "HOL-Library.Word" "HOL-Library.Signed_Division"
begin

section \<open>Greenhouse watering controller (water4.ino): data model\<close>

text \<open>
  The sketch runs on a Teensy LC (ARM Cortex-M0+): \<^verbatim>\<open>int\<close>, \<^verbatim>\<open>long\<close> and
  \<^verbatim>\<open>unsigned long\<close> are all 32 bits wide. Signed values are read with \<open>sint\<close>,
  unsigned ones with \<open>unat\<close>; \<open>+\<close>, \<open>-\<close> and \<open>*\<close> wrap around.
\<close>

type_synonym c_int = "32 word"
type_synonym c_ulong = "32 word"

text \<open>C++ division and remainder on \<^verbatim>\<open>int\<close> truncate towards zero.\<close>

definition c_div :: "c_int \<Rightarrow> c_int \<Rightarrow> c_int" where
  "c_div a b = word_of_int (sint a sdiv sint b)"

definition c_mod :: "c_int \<Rightarrow> c_int \<Rightarrow> c_int" where
  "c_mod a b = word_of_int (sint a smod sint b)"

text \<open>Digital pin levels; a \<^verbatim>\<open>bool\<close> passed to \<^verbatim>\<open>digitalWrite\<close> drives HIGH when true.\<close>

datatype level = LOW | HIGH

definition level_of_bool :: "bool \<Rightarrow> level" where
  "level_of_bool b = (if b then HIGH else LOW)"

subsection \<open>Constants of the sketch (lines 51 to 73)\<close>

definition int_led :: nat where "int_led = 13"
definition signal_led :: nat where "signal_led = 21"
definition pump :: nat where "pump = 7"
definition dark_thresh :: c_int where "dark_thresh = 512"
definition min_time :: c_int where "min_time = 5000"
definition max_time :: c_int where "max_time = 600000"
definition cycle_time :: c_int where "cycle_time = 3600000"
definition led_on_pumping :: c_int where "led_on_pumping = 500"
definition led_on_idle :: c_int where "led_on_idle = 10"
definition led_off_pumping :: c_int where "led_off_pumping = 1500"
definition led_off_idle :: c_int where "led_off_idle = 2000"

subsection \<open>Timers\<close>

text \<open>
  Modelled from the spec: the Chrono library (\<^verbatim>\<open>#include <Chrono.h>\<close>) is not part of
  the sources. The spec describes a timer as an elapsed-time tracker that supports
  restart and the query "have at least N milliseconds elapsed since the last restart",
  implemented as \<^verbatim>\<open>current_time - last_restart_time >= threshold\<close>. The time is the
  32-bit millisecond counter, so the subtraction wraps; \<open>now\<close> is the counter's value
  at the call.
\<close>

record chrono =
  start_time :: c_ulong

definition elapsed :: "c_ulong \<Rightarrow> chrono \<Rightarrow> c_ulong" where
  "elapsed now c = now - start_time c"

definition hasPassed :: "c_ulong \<Rightarrow> chrono \<Rightarrow> c_ulong \<Rightarrow> bool" where
  "hasPassed now c timeout = (timeout \<le> elapsed now c)"

definition restart :: "c_ulong \<Rightarrow> chrono \<Rightarrow> chrono" where
  "restart now c = c\<lparr>start_time := now\<rparr>"

datatype timer = LedChrono | PumpChrono

subsection \<open>Effects, inputs and the program state\<close>

text \<open>
  Every call into the hardware or a library that has an effect is recorded, in program
  order: pin writes, blocking delays, serial and display output, timer restarts.
\<close>

datatype event =
    DigitalWrite nat level
  | Delay nat
  | ChronoRestart timer
  | SerialBegin nat
  | SerialWrite nat
  | SerialPrintlnStr string
  | SerialPrintlnInt c_int
  | LcdClear
  | LcdBegin nat nat
  | LcdSetCursor nat nat
  | LcdPrintStr string
  | LcdPrintInt c_int

text \<open>
  What one pass of \<^verbatim>\<open>loop()\<close> (or \<^verbatim>\<open>setup()\<close>) reads from the outside: the pin levels
  and analog readings, and the millisecond counter at each timer call. The light sensor
  is read twice on the diagnostic light screen (once for the percentage, once inside
  \<^verbatim>\<open>light()\<close>), so the displayed reading has a field of its own.
\<close>

record inputs =
  empty_switch_in :: level
  prime_switch_in :: level
  disp_present_in :: level
  ldr_in :: c_int
  ldr_shown_in :: c_int
  pump_res_in :: c_int
  millis_pump_check :: c_ulong
  millis_pump_restart :: c_ulong
  millis_led_check :: c_ulong
  millis_led_restart :: c_ulong

text \<open>The global variables (lines 78 to 91), the output pins' latches and the effects so far.\<close>

record state =
  pump_res_val :: c_int
  pump_time :: c_int
  pump_state :: bool
  led_state :: bool
  diag_mode :: bool
  next_led_event :: c_int
  next_pump_event :: c_int
  led_chrono :: chrono
  pump_chrono :: chrono
  pins :: "nat \<Rightarrow> level"
  trace :: "event list"

definition emit :: "event \<Rightarrow> state \<Rightarrow> state" where
  "emit e s = s\<lparr>trace := trace s @ [e]\<rparr>"

definition digitalWrite :: "nat \<Rightarrow> level \<Rightarrow> state \<Rightarrow> state" where
  "digitalWrite p v s = emit (DigitalWrite p v) (s\<lparr>pins := (pins s)(p := v)\<rparr>)"

definition delay :: "nat \<Rightarrow> state \<Rightarrow> state" where
  "delay ms s = emit (Delay ms) s"

section \<open>The functions of the sketch\<close>

text \<open>\<^verbatim>\<open>light()\<close>, lines 110 to 115: true if it is light.\<close>

definition light :: "inputs \<Rightarrow> bool" where
  "light inp = (ldr_in inp <s dark_thresh)"

text \<open>
  The pump on-time derived from the potentiometer reading, the expression of lines 162,
  211 and 261: \<^verbatim>\<open>min_time + ((max_time - min_time) * pump_res_val / 1023)\<close>.
\<close>

definition pump_time_calc :: "c_int \<Rightarrow> c_int" where
  "pump_time_calc r = min_time + c_div ((max_time - min_time) * r) 1023"

subsection \<open>Start-up\<close>

text \<open>
  The static initialisers of the globals (lines 78 to 91): \<^verbatim>\<open>pump_state\<close> and
  \<^verbatim>\<open>led_state\<close> start true, the other variables are zero-initialised, and both timers
  start when they are constructed, at counter value \<open>t0\<close>. No output has been driven.
\<close>

definition power_on :: "c_ulong \<Rightarrow> state" where
  "power_on t0 =
     \<lparr>pump_res_val = 0, pump_time = 0, pump_state = True, led_state = True,
      diag_mode = False, next_led_event = 0, next_pump_event = 0,
      led_chrono = \<lparr>start_time = t0\<rparr>, pump_chrono = \<lparr>start_time = t0\<rparr>,
      pins = (\<lambda>_. LOW), trace = []\<rparr>"

text \<open>The confirmation flash of the on-board LED, lines 138 to 144.\<close>

function flash_int_led :: "int \<Rightarrow> state \<Rightarrow> state" where
  "flash_int_led count s =
     (if count < 3
      then flash_int_led (count + 1)
             (delay 250 (digitalWrite int_led LOW (delay 250 (digitalWrite int_led HIGH s))))
      else s)"
  by pat_completeness auto
termination
  by (relation "measure (\<lambda>(count, s). nat (3 - count))") auto

declare flash_int_led.simps [simp del]

text \<open>
  \<^verbatim>\<open>setup()\<close>, lines 117 to 168 (the name \<open>setup\<close> is reserved in Isabelle). The pin
  modes and the interrupt handlers configure the hardware and change nothing of the
  state modelled here; the pause until the reset switch is released produces no effect
  and is taken to end.
\<close>

definition setup_fn :: "inputs \<Rightarrow> state \<Rightarrow> state" where
  "setup_fn inp s0 =
     (let s1 = flash_int_led 0 s0;
          s2 = digitalWrite pump LOW s1;
          s3 = digitalWrite signal_led HIGH s2;
          s4 = s3\<lparr>pump_res_val := pump_res_in inp\<rparr>;
          s5 = s4\<lparr>pump_time := pump_time_calc (pump_res_val s4)\<rparr>;
          s6 = s5\<lparr>next_pump_event := pump_time s5\<rparr>;
          s7 = s6\<lparr>diag_mode := (disp_present_in inp = LOW)\<rparr>
      in emit (SerialBegin 9600) s7)"

subsection \<open>Diagnostic mode\<close>

text \<open>The body of the \<^verbatim>\<open>switch\<close> of lines 184 to 230, for one value of the counter.\<close>

definition diag_screen :: "inputs \<Rightarrow> int \<Rightarrow> state \<Rightarrow> state" where
  "diag_screen inp counter s =
     (if counter = 1 then
        (if empty_switch_in inp = HIGH
         then emit (LcdPrintStr ''We have water'') s
         else emit (LcdPrintStr ''Tank is empty'') s)
      else if counter = 2 then
        (let s1 = emit (LcdPrintStr ''Light = '') s;
             s2 = emit (LcdSetCursor 8 0) s1;
             s3 = emit (LcdPrintInt (c_div ((1023 - ldr_shown_in inp) * 100) 1023)) s2;
             s4 = emit (LcdPrintStr ''%'') s3;
             s5 = emit (LcdSetCursor 0 1) s4
         in if light inp
            then emit (LcdPrintStr ''It's daytime'') s5
            else emit (LcdPrintStr ''It's night'') s5)
      else if counter = 3 then
        (let s1 = s\<lparr>pump_res_val := pump_res_in inp\<rparr>;
             s2 = s1\<lparr>pump_time := pump_time_calc (pump_res_val s1)\<rparr>;
             s3 = emit (LcdPrintStr ''Pot 1 = '') s2;
             s4 = emit (LcdSetCursor 8 0) s3;
             s5 = emit (LcdPrintInt (c_div (pump_res_val s4 * 100) 1023)) s4;
             s6 = emit (LcdPrintStr ''%'') s5;
             s7 = emit (LcdSetCursor 0 1) s6;
             s8 = emit (LcdPrintStr ''Time = '') s7;
             s9 = emit (LcdSetCursor 7 1) s8;
             s10 = emit (LcdPrintInt (c_div (pump_time s9) 60000)) s9;
             s11 = emit (LcdPrintStr '':'') s10
         in emit (LcdPrintInt (c_mod (c_div (pump_time s11) 1000) 60)) s11)
      else if counter = 4 then
        (if prime_switch_in inp = LOW
         then emit (LcdPrintStr ''Prime is on'') s
         else emit (LcdPrintStr ''Prime is off'') s)
      else s)"

text \<open>The \<^verbatim>\<open>for\<close> loop over the four screens, lines 180 to 233.\<close>

function diag_screens :: "inputs \<Rightarrow> int \<Rightarrow> state \<Rightarrow> state" where
  "diag_screens inp counter s =
     (if counter \<le> 4
      then diag_screens inp (counter + 1)
             (delay 2000
               (diag_screen inp counter
                 (emit (LcdBegin 16 2)
                   (emit LcdClear
                     (emit (SerialPrintlnInt (word_of_int counter)) s)))))
      else s)"
  by pat_completeness auto
termination
  by (relation "measure (\<lambda>(inp, counter, s). nat (5 - counter))") auto

declare diag_screens.simps [simp del]

definition diagnostic_pass :: "inputs \<Rightarrow> state \<Rightarrow> state" where
  "diagnostic_pass inp s = diag_screens inp 1 s"

subsection \<open>Tank-empty alarm\<close>

text \<open>One iteration of the \<^verbatim>\<open>while (true)\<close> loop of lines 243 to 248.\<close>

definition alarm_iteration :: "state \<Rightarrow> state" where
  "alarm_iteration s =
     delay 500 (digitalWrite signal_led HIGH (delay 20 (digitalWrite signal_led LOW s)))"

text \<open>
  The loop has no exit: as a function it returns nothing (\<open>None\<close>). What it does is
  observed through \<open>alarm_run n\<close>, the state after its first \<open>n\<close> iterations.
\<close>

partial_function (option) tank_empty_alarm :: "state \<Rightarrow> state option" where
  "tank_empty_alarm s = tank_empty_alarm (alarm_iteration s)"

fun alarm_run :: "nat \<Rightarrow> state \<Rightarrow> state" where
  "alarm_run 0 s = s"
| "alarm_run (Suc n) s = alarm_run n (alarm_iteration s)"

subsection \<open>Watering mode\<close>

text \<open>Lines 258 to 263: read the potentiometer and derive the pump on-time.\<close>

definition sample_pump_time :: "inputs \<Rightarrow> state \<Rightarrow> state" where
  "sample_pump_time inp s0 =
     (let s1 = emit (SerialWrite 13) s0;
          s2 = emit (SerialPrintlnStr ''Reading pump res'') s1;
          s3 = s2\<lparr>pump_res_val := pump_res_in inp\<rparr>;
          s4 = s3\<lparr>pump_time := pump_time_calc (pump_res_val s3)\<rparr>;
          s5 = emit (SerialPrintlnInt (pump_time s4)) s4
      in emit (SerialPrintlnInt (of_bool (pump_state s5))) s5)"

text \<open>Lines 268 to 271: the threshold of the cycle timer.\<close>

definition select_next_pump_event :: "state \<Rightarrow> state" where
  "select_next_pump_event s =
     (if pump_state s
      then s\<lparr>next_pump_event := pump_time s\<rparr>
      else s\<lparr>next_pump_event := cycle_time\<rparr>)"

text \<open>
  Lines 273 to 280: when the cycle timer has passed its threshold, restart it, flip
  \<^verbatim>\<open>pump_state\<close>, then factor in the prime switch (engaged when the pin reads low) and
  the light.
\<close>

definition pump_transition :: "inputs \<Rightarrow> state \<Rightarrow> state" where
  "pump_transition inp s =
     (if hasPassed (millis_pump_check inp) (pump_chrono s) (next_pump_event s)
      then
        (let s1 = emit (ChronoRestart PumpChrono)
                    (s\<lparr>pump_chrono := restart (millis_pump_restart inp) (pump_chrono s)\<rparr>);
             s2 = s1\<lparr>pump_state := \<not> pump_state s1\<rparr>
         in s2\<lparr>pump_state := (prime_switch_in inp = LOW) \<or> (pump_state s2 \<and> light inp)\<rparr>)
      else s)"

text \<open>Line 284: update the pump output with the current state.\<close>

definition drive_pump :: "state \<Rightarrow> state" where
  "drive_pump s = digitalWrite pump (level_of_bool (pump_state s)) s"

text \<open>Lines 292 to 301: when the next change of the signal LED is due.\<close>

definition select_next_led_event :: "state \<Rightarrow> state" where
  "select_next_led_event s =
     (if pump_state s
      then (if led_state s
            then s\<lparr>next_led_event := led_on_pumping\<rparr>
            else s\<lparr>next_led_event := led_off_pumping\<rparr>)
      else if led_state s
           then s\<lparr>next_led_event := led_on_idle\<rparr>
           else s\<lparr>next_led_event := led_off_idle\<rparr>)"

text \<open>Lines 303 to 307: toggle the signal LED when its timer has passed the threshold.\<close>

definition led_transition :: "inputs \<Rightarrow> state \<Rightarrow> state" where
  "led_transition inp s =
     (if hasPassed (millis_led_check inp) (led_chrono s) (next_led_event s)
      then
        (let s1 = emit (ChronoRestart LedChrono)
                    (s\<lparr>led_chrono := restart (millis_led_restart inp) (led_chrono s)\<rparr>);
             s2 = s1\<lparr>led_state := \<not> led_state s1\<rparr>
         in digitalWrite signal_led (level_of_bool (\<not> led_state s2)) s2)
      else s)"

text \<open>The main timer pass, lines 250 to 313: the pump first, then the signal LED.\<close>

definition watering_pass :: "inputs \<Rightarrow> state \<Rightarrow> state" where
  "watering_pass inp s =
     led_transition inp
       (select_next_led_event
         (drive_pump
           (pump_transition inp
             (select_next_pump_event
               (sample_pump_time inp s)))))"

subsection \<open>The main loop\<close>

text \<open>
  One call of \<^verbatim>\<open>loop()\<close>, lines 170 to 316. \<open>None\<close>: the call does not return (the
  tank-empty alarm).
\<close>

definition loop :: "inputs \<Rightarrow> state \<Rightarrow> state option" where
  "loop inp s =
     (if diag_mode s then Some (diagnostic_pass inp s)
      else if empty_switch_in inp = LOW then tank_empty_alarm s
      else Some (watering_pass inp s))"

text \<open>
  The state a call of \<^verbatim>\<open>loop()\<close> has reached once the alarm loop, if it was entered,
  has completed \<open>n\<close> iterations; for a call that returns, the state it returns.
\<close>

definition loop_progress :: "nat \<Rightarrow> inputs \<Rightarrow> state \<Rightarrow> state" where
  "loop_progress n inp s =
     (if diag_mode s then diagnostic_pass inp s
      else if empty_switch_in inp = LOW then alarm_run n s
      else watering_pass inp s)"

text \<open>
  The Arduino core calls \<^verbatim>\<open>loop()\<close> again each time it returns; \<open>run_loop\<close> makes one
  call per element of the list of inputs, and stops for good at a call that does not
  return.
\<close>

fun run_loop :: "inputs list \<Rightarrow> state \<Rightarrow> state option" where
  "run_loop [] s = Some s"
| "run_loop (inp # inps) s =
     (case loop inp s of None \<Rightarrow> None | Some s' \<Rightarrow> run_loop inps s')"

subsection \<open>The reset interrupt\<close>

text \<open>
  \<^verbatim>\<open>rst_ISR()\<close> (lines 101 to 108) resets the board, and \<^verbatim>\<open>setup()\<close> attaches it to
  every change of the prime switch (line 149). A pass of \<^verbatim>\<open>loop()\<close> that runs to its
  end has therefore seen no change of the prime pin since start-up: within one life of
  the board, \<open>run_loop inps (setup_fn inp0 (power_on t0))\<close>, every pass reads the prime pin
  at the same level \<open>p\<close>. A change of the pin ends that life and starts the next one,
  again from \<open>power_on\<close> and \<open>setup_fn\<close>.
\<close>

definition prime_steady :: "level \<Rightarrow> inputs list \<Rightarrow> bool" where
  "prime_steady p inps = list_all (\<lambda>inp. prime_switch_in inp = p) inps"

subsection \<open>Observations of a watering pass\<close>

text \<open>The test of line 273, as the pass evaluates it: has the cycle timer reached its threshold?\<close>

definition cycle_timer_due :: "inputs \<Rightarrow> state \<Rightarrow> bool" where
  "cycle_timer_due inp s =
     (let s1 = select_next_pump_event (sample_pump_time inp s)
      in hasPassed (millis_pump_check inp) (pump_chrono s1) (next_pump_event s1))"

text \<open>The test of line 303, as the pass evaluates it: has the LED timer reached its threshold?\<close>

definition led_timer_due :: "inputs \<Rightarrow> state \<Rightarrow> bool" where
  "led_timer_due inp s =
     (let s1 = select_next_led_event (drive_pump (pump_transition inp
                 (select_next_pump_event (sample_pump_time inp s))))
      in hasPassed (millis_led_check inp) (led_chrono s1) (next_led_event s1))"

text \<open>The effects of one watering pass, in program order.\<close>

definition pass_events :: "inputs \<Rightarrow> state \<Rightarrow> event list" where
  "pass_events inp s = drop (length (trace s)) (trace (watering_pass inp s))"

text \<open>The levels written to pin \<open>p\<close> by a sequence of effects, in order.\<close>

fun writes_to :: "nat \<Rightarrow> event list \<Rightarrow> level list" where
  "writes_to p [] = []"
| "writes_to p (DigitalWrite q v # es) =
     (if q = p then v # writes_to p es else writes_to p es)"
| "writes_to p (e # es) = writes_to p es"

text \<open>
  The signal LED is wired active-low: \<^verbatim>\<open>setup()\<close> switches it off by driving the pin
  high (lines 154 to 157), and line 306 drives the pin to \<^verbatim>\<open>!led_state\<close>.
  \<open>signal_led_level lit\<close> is the pin level at which the LED is lit, or dark.
\<close>

definition signal_led_level :: "bool \<Rightarrow> level" where
  "signal_led_level lit = level_of_bool (\<not> lit)"

subsection \<open>Example states and inputs\<close>

text \<open>
  Idle between two cycles: the pump was switched off at 400000 ms, the LED is in the dark
  phase of its slow flash.
\<close>

definition idle_example :: state where
  "idle_example =
     \<lparr>pump_res_val = 512, pump_time = 302790, pump_state = False, led_state = False,
      diag_mode = False, next_led_event = 2000, next_pump_event = 3600000,
      led_chrono = \<lparr>start_time = 400000\<rparr>, pump_chrono = \<lparr>start_time = 400000\<rparr>,
      pins = (\<lambda>_. LOW)(signal_led := HIGH), trace = []\<rparr>"

text \<open>
  Pumping: the pump was switched on at 400000 ms, the LED is in the lit phase of its
  longer flash.
\<close>

definition pumping_example :: state where
  "pumping_example =
     \<lparr>pump_res_val = 512, pump_time = 302790, pump_state = True, led_state = True,
      diag_mode = False, next_led_event = 500, next_pump_event = 302790,
      led_chrono = \<lparr>start_time = 400000\<rparr>, pump_chrono = \<lparr>start_time = 400000\<rparr>,
      pins = (\<lambda>_. LOW)(pump := HIGH), trace = []\<rparr>"

text \<open>
  Readings at 4000000 ms: water in the tank, prime switch off, no display, daylight,
  potentiometer at mid-scale.
\<close>

definition day_inputs :: inputs where
  "day_inputs =
     \<lparr>empty_switch_in = HIGH, prime_switch_in = HIGH, disp_present_in = HIGH,
      ldr_in = 100, ldr_shown_in = 100, pump_res_in = 512,
      millis_pump_check = 4000000, millis_pump_restart = 4000000,
      millis_led_check = 4000000, millis_led_restart = 4000000\<rparr>"

text \<open>The same readings after dark.\<close>

definition night_inputs :: inputs where
  "night_inputs = day_inputs\<lparr>ldr_in := 900, ldr_shown_in := 900\<rparr>"

text \<open>
  The same readings 100 ms after the timers of the two example states were restarted.
\<close>

definition midcycle_inputs :: inputs where
  "midcycle_inputs =
     day_inputs\<lparr>millis_pump_check := 400100, millis_pump_restart := 400100,
                 millis_led_check := 400100, millis_led_restart := 400100\<rparr>"

section \<open>Properties\<close>

subsection \<open>The steps of a watering pass in closed form\<close>

lemma sample_pump_time_eq:
  "sample_pump_time inp s =
     s\<lparr>pump_res_val := pump_res_in inp, pump_time := pump_time_calc (pump_res_in inp),
       trace := trace s @ [SerialWrite 13, SerialPrintlnStr ''Reading pump res'',
                           SerialPrintlnInt (pump_time_calc (pump_res_in inp)),
                           SerialPrintlnInt (of_bool (pump_state s))]\<rparr>"
  by (simp add: sample_pump_time_def emit_def Let_def)

lemma select_next_pump_event_eq:
  "select_next_pump_event s =
     s\<lparr>next_pump_event := (if pump_state s then pump_time s else cycle_time)\<rparr>"
  by (simp add: select_next_pump_event_def)

lemma pump_transition_eq:
  "pump_transition inp s =
     (let due = hasPassed (millis_pump_check inp) (pump_chrono s) (next_pump_event s) in
      s\<lparr>pump_state := (if due then prime_switch_in inp = LOW \<or> (\<not> pump_state s \<and> light inp)
                        else pump_state s),
        pump_chrono := (if due then restart (millis_pump_restart inp) (pump_chrono s)
                        else pump_chrono s),
        trace := trace s @ (if due then [ChronoRestart PumpChrono] else [])\<rparr>)"
  by (simp add: pump_transition_def emit_def Let_def)

lemma drive_pump_eq:
  "drive_pump s =
     s\<lparr>pins := (pins s)(pump := level_of_bool (pump_state s)),
       trace := trace s @ [DigitalWrite pump (level_of_bool (pump_state s))]\<rparr>"
  by (simp add: drive_pump_def digitalWrite_def emit_def)

lemma select_next_led_event_eq:
  "select_next_led_event s =
     s\<lparr>next_led_event :=
        (if pump_state s then (if led_state s then led_on_pumping else led_off_pumping)
         else if led_state s then led_on_idle else led_off_idle)\<rparr>"
  by (simp add: select_next_led_event_def)

lemma led_transition_eq:
  "led_transition inp s =
     (let due = hasPassed (millis_led_check inp) (led_chrono s) (next_led_event s) in
      s\<lparr>led_state := (if due then \<not> led_state s else led_state s),
        led_chrono := (if due then restart (millis_led_restart inp) (led_chrono s)
                       else led_chrono s),
        pins := (if due then (pins s)(signal_led := level_of_bool (led_state s)) else pins s),
        trace := trace s @ (if due then [ChronoRestart LedChrono,
                                         DigitalWrite signal_led (level_of_bool (led_state s))]
                            else [])\<rparr>)"
  by (simp add: led_transition_def digitalWrite_def emit_def Let_def)

lemmas step_eqs = sample_pump_time_eq select_next_pump_event_eq pump_transition_eq
  drive_pump_eq select_next_led_event_eq led_transition_eq

subsection \<open>What a watering pass does to each variable\<close>

lemma cycle_timer_due_eq:
  "cycle_timer_due inp s =
     hasPassed (millis_pump_check inp) (pump_chrono s)
       (if pump_state s then pump_time_calc (pump_res_in inp) else cycle_time)"
  by (simp add: cycle_timer_due_def sample_pump_time_eq select_next_pump_event_eq)

lemma pump_time_watering_pass:
  "pump_time (watering_pass inp s) = pump_time_calc (pump_res_in inp)"
  by (simp add: watering_pass_def step_eqs Let_def)

lemma diag_mode_watering_pass:
  "diag_mode (watering_pass inp s) = diag_mode s"
  by (simp add: watering_pass_def step_eqs Let_def)

lemma pump_state_watering_pass:
  "pump_state (watering_pass inp s) =
     (if cycle_timer_due inp s
      then prime_switch_in inp = LOW \<or> (\<not> pump_state s \<and> light inp)
      else pump_state s)"
  by (simp add: cycle_timer_due_eq watering_pass_def step_eqs Let_def)

lemma pump_chrono_watering_pass:
  "pump_chrono (watering_pass inp s) =
     (if cycle_timer_due inp s then restart (millis_pump_restart inp) (pump_chrono s)
      else pump_chrono s)"
  by (simp add: cycle_timer_due_eq watering_pass_def step_eqs Let_def)

lemma pump_pin_watering_pass:
  "pins (watering_pass inp s) pump = level_of_bool (pump_state (watering_pass inp s))"
  by (simp add: watering_pass_def step_eqs Let_def pump_def signal_led_def)

lemma next_led_event_watering_pass:
  "next_led_event (watering_pass inp s) =
     (if pump_state (watering_pass inp s)
      then (if led_state s then led_on_pumping else led_off_pumping)
      else if led_state s then led_on_idle else led_off_idle)"
  by (simp add: watering_pass_def step_eqs Let_def)

lemma led_timer_due_eq:
  "led_timer_due inp s =
     hasPassed (millis_led_check inp) (led_chrono s) (next_led_event (watering_pass inp s))"
  by (simp add: led_timer_due_def watering_pass_def step_eqs Let_def)

lemma led_state_watering_pass:
  "led_state (watering_pass inp s) =
     (if led_timer_due inp s then \<not> led_state s else led_state s)"
  by (simp add: led_timer_due_def watering_pass_def step_eqs Let_def)

lemma led_chrono_watering_pass:
  "led_chrono (watering_pass inp s) =
     (if led_timer_due inp s then restart (millis_led_restart inp) (led_chrono s)
      else led_chrono s)"
  by (simp add: led_timer_due_def watering_pass_def step_eqs Let_def)

lemma led_pin_watering_pass:
  "pins (watering_pass inp s) signal_led =
     (if led_timer_due inp s then level_of_bool (\<not> led_state (watering_pass inp s))
      else pins s signal_led)"
  by (simp add: led_timer_due_def watering_pass_def step_eqs Let_def pump_def signal_led_def)

lemma pass_events_eq:
  "pass_events inp s =
     [SerialWrite 13, SerialPrintlnStr ''Reading pump res'',
      SerialPrintlnInt (pump_time_calc (pump_res_in inp)),
      SerialPrintlnInt (of_bool (pump_state s))]
     @ (if cycle_timer_due inp s then [ChronoRestart PumpChrono] else [])
     @ [DigitalWrite pump (level_of_bool (pump_state (watering_pass inp s)))]
     @ (if led_timer_due inp s
        then [ChronoRestart LedChrono,
              DigitalWrite signal_led (level_of_bool (\<not> led_state (watering_pass inp s)))]
        else [])"
  by (simp add: pass_events_def cycle_timer_due_eq led_timer_due_def watering_pass_def
      step_eqs Let_def)

lemma loop_watering:
  "\<not> diag_mode s \<Longrightarrow> empty_switch_in inp = HIGH \<Longrightarrow> loop inp s = Some (watering_pass inp s)"
  by (simp add: loop_def)

subsection \<open>The alarm loop\<close>

lemma tank_empty_alarm_None: "tank_empty_alarm s = None"
proof (cases "tank_empty_alarm s")
  case None
  then show ?thesis .
next
  case (Some y)
  have False
    by (rule tank_empty_alarm.raw_induct [where P = "\<lambda>_ _. False", OF _ Some]) blast
  then show ?thesis ..
qed

lemma alarm_iteration_eq:
  "alarm_iteration s =
     s\<lparr>pins := (pins s)(signal_led := HIGH),
       trace := trace s @ [DigitalWrite signal_led LOW, Delay 20,
                           DigitalWrite signal_led HIGH, Delay 500]\<rparr>"
  by (simp add: alarm_iteration_def digitalWrite_def delay_def emit_def)

lemma alarm_run_Suc: "alarm_run (Suc n) s = alarm_iteration (alarm_run n s)"
  by (induction n arbitrary: s) simp_all

lemma trace_alarm_run:
  "trace (alarm_run n s) =
     trace s @ concat (replicate n [DigitalWrite signal_led LOW, Delay 20,
                                    DigitalWrite signal_led HIGH, Delay 500])"
  by (induction n arbitrary: s) (simp_all add: alarm_iteration_eq)

lemma alarm_run_frame:
  "pump_state (alarm_run n s) = pump_state s \<and> led_state (alarm_run n s) = led_state s \<and>
   led_chrono (alarm_run n s) = led_chrono s \<and> pump_chrono (alarm_run n s) = pump_chrono s \<and>
   pins (alarm_run n s) pump = pins s pump"
  by (induction n arbitrary: s) (simp_all add: alarm_iteration_eq pump_def signal_led_def)

lemma loop_alarm:
  "\<not> diag_mode s \<Longrightarrow> empty_switch_in inp = LOW \<Longrightarrow> loop inp s = None"
  by (simp add: loop_def tank_empty_alarm_None)

lemma loop_progress_alarm:
  "\<not> diag_mode s \<Longrightarrow> empty_switch_in inp = LOW \<Longrightarrow> loop_progress n inp s = alarm_run n s"
  by (simp add: loop_progress_def)


subsection \<open>Pin writes\<close>

lemma writes_to_append: "writes_to p (es @ fs) = writes_to p es @ writes_to p fs"
  by (induction p es rule: writes_to.induct) simp_all

lemma pump_writes_watering_pass:
  "writes_to pump (pass_events inp s) = [level_of_bool (pump_state (watering_pass inp s))]"
  by (simp add: pass_events_eq writes_to_append pump_def signal_led_def)

lemma level_of_bool_HIGH: "(level_of_bool b = HIGH) = b"
  by (simp add: level_of_bool_def)

lemma level_of_bool_LOW: "(level_of_bool b = LOW) = (\<not> b)"
  by (simp add: level_of_bool_def)

lemma restart_pump_mem:
  "(ChronoRestart PumpChrono \<in> set (pass_events inp s)) = cycle_timer_due inp s"
  by (simp add: pass_events_eq)

lemma writes_to_pump_flashes:
  "writes_to pump (concat (replicate n [DigitalWrite signal_led LOW, Delay 20,
                                        DigitalWrite signal_led HIGH, Delay 500])) = []"
  by (induction n) (simp_all add: pump_def signal_led_def)

subsection \<open>The examples evaluated\<close>

lemma idle_example_simps [simp]:
  "\<not> diag_mode idle_example" "\<not> pump_state idle_example" "\<not> led_state idle_example"
  "pump_chrono idle_example = \<lparr>start_time = 400000\<rparr>"
  "led_chrono idle_example = \<lparr>start_time = 400000\<rparr>"
  "trace idle_example = []"
  by (simp_all add: idle_example_def)

lemma pumping_example_simps [simp]:
  "\<not> diag_mode pumping_example" "pump_state pumping_example" "led_state pumping_example"
  "pump_chrono pumping_example = \<lparr>start_time = 400000\<rparr>"
  "led_chrono pumping_example = \<lparr>start_time = 400000\<rparr>"
  "trace pumping_example = []"
  by (simp_all add: pumping_example_def)

lemma day_inputs_simps [simp]:
  "empty_switch_in day_inputs = HIGH" "prime_switch_in day_inputs = HIGH"
  "light day_inputs" "pump_res_in day_inputs = 512"
  "millis_pump_check day_inputs = 4000000" "millis_pump_restart day_inputs = 4000000"
  "millis_led_check day_inputs = 4000000" "millis_led_restart day_inputs = 4000000"
  by (simp_all add: day_inputs_def light_def dark_thresh_def)

lemma night_inputs_simps [simp]:
  "empty_switch_in night_inputs = HIGH" "prime_switch_in night_inputs = HIGH"
  "\<not> light night_inputs" "pump_res_in night_inputs = 512"
  "millis_pump_check night_inputs = 4000000" "millis_pump_restart night_inputs = 4000000"
  "millis_led_check night_inputs = 4000000" "millis_led_restart night_inputs = 4000000"
  by (simp_all add: night_inputs_def day_inputs_def light_def dark_thresh_def)

lemma midcycle_inputs_simps [simp]:
  "empty_switch_in midcycle_inputs = HIGH" "prime_switch_in midcycle_inputs = HIGH"
  "light midcycle_inputs" "pump_res_in midcycle_inputs = 512"
  "millis_pump_check midcycle_inputs = 400100" "millis_pump_restart midcycle_inputs = 400100"
  "millis_led_check midcycle_inputs = 400100" "millis_led_restart midcycle_inputs = 400100"
  by (simp_all add: midcycle_inputs_def day_inputs_def light_def dark_thresh_def)

lemma light_prime_update [simp]: "light (inp\<lparr>prime_switch_in := v\<rparr>) = light inp"
  by (simp add: light_def)

lemma pump_time_calc_512: "pump_time_calc 512 = 302790"
  by (simp add: pump_time_calc_def min_time_def max_time_def c_div_def signed_divide_int_def)

lemma cycle_timer_due_examples:
  "cycle_timer_due day_inputs idle_example"
  "cycle_timer_due night_inputs idle_example"
  "cycle_timer_due day_inputs pumping_example"
  "cycle_timer_due night_inputs pumping_example"
  "cycle_timer_due (day_inputs\<lparr>prime_switch_in := LOW\<rparr>) idle_example"
  "cycle_timer_due (night_inputs\<lparr>prime_switch_in := LOW\<rparr>) idle_example"
  "cycle_timer_due (night_inputs\<lparr>prime_switch_in := LOW\<rparr>) pumping_example"
  "\<not> cycle_timer_due midcycle_inputs idle_example"
  "\<not> cycle_timer_due midcycle_inputs pumping_example"
  "\<not> cycle_timer_due (midcycle_inputs\<lparr>prime_switch_in := LOW\<rparr>) idle_example"
  "\<not> cycle_timer_due (midcycle_inputs\<lparr>prime_switch_in := LOW\<rparr>) pumping_example"
  by (simp_all add: cycle_timer_due_eq hasPassed_def elapsed_def cycle_time_def
      pump_time_calc_512)

subsection \<open>The pump on-time as a number\<close>

lemma sint_c_div_1023:
  assumes "0 \<le> sint a"
  shows "sint (c_div a 1023) = sint a div 1023"
proof -
  have b: "sint a < 2 ^ 31" using sint_lt [of a] by simp
  have "sint a sdiv 1023 = sint a div 1023"
    using assms by (simp add: signed_divide_int_def sgn_if)
  moreover have "0 \<le> sint a div 1023" using assms by simp
  moreover have "sint a div 1023 \<le> sint a" using assms by arith
  ultimately show ?thesis using b
    by (simp add: c_div_def sint_sbintrunc' signed_take_bit_int_eq_self)
qed

lemma sint_scale:
  assumes "0 \<le> sint r" "sint r \<le> 1023"
  shows "sint ((max_time - min_time) * r) = 595000 * sint r"
proof -
  have "595000 * sint r \<le> 595000 * 1023" using assms by simp
  moreover have "0 \<le> 595000 * sint r" using assms by simp
  ultimately show ?thesis
    by (simp add: max_time_def min_time_def sint_word_mult signed_take_bit_int_eq_self)
qed

lemma sint_pump_time_calc:
  assumes "0 \<le> sint r" "sint r \<le> 1023"
  shows "sint (pump_time_calc r) = 5000 + (595000 * sint r) div 1023"
proof -
  have s: "sint ((max_time - min_time) * r) = 595000 * sint r" using assms by (rule sint_scale)
  have nn: "0 \<le> sint ((max_time - min_time) * r)" using s assms by simp
  have d: "sint (c_div ((max_time - min_time) * r) 1023) = (595000 * sint r) div 1023"
    using sint_c_div_1023 [OF nn] s by simp
  have "(595000 * sint r) div 1023 \<le> (595000 * 1023) div 1023"
    using assms by (intro zdiv_mono1) simp_all
  then have ub: "(595000 * sint r) div 1023 \<le> 595000" by simp
  have lb: "0 \<le> (595000 * sint r) div 1023" using assms by simp
  show ?thesis using d ub lb
    by (simp add: pump_time_calc_def min_time_def sint_word_add signed_take_bit_int_eq_self)
qed

subsection \<open>Start-up\<close>

lemma pump_time_flash [simp]: "pump_time (flash_int_led count s) = pump_time s"
proof (induction count s rule: flash_int_led.induct)
  case (1 count s)
  then show ?case
    by (subst flash_int_led.simps) (simp add: digitalWrite_def delay_def emit_def)
qed

lemma pump_state_flash [simp]: "pump_state (flash_int_led count s) = pump_state s"
proof (induction count s rule: flash_int_led.induct)
  case (1 count s)
  then show ?case
    by (subst flash_int_led.simps) (simp add: digitalWrite_def delay_def emit_def)
qed

lemma pump_time_setup_fn: "pump_time (setup_fn inp s) = pump_time_calc (pump_res_in inp)"
  by (simp add: setup_fn_def Let_def digitalWrite_def emit_def)

lemma pump_chrono_flash [simp]: "pump_chrono (flash_int_led count s) = pump_chrono s"
proof (induction count s rule: flash_int_led.induct)
  case (1 count s)
  then show ?case
    by (subst flash_int_led.simps) (simp add: digitalWrite_def delay_def emit_def)
qed

lemma pump_state_setup_fn: "pump_state (setup_fn inp s) = pump_state s"
  by (simp add: setup_fn_def Let_def digitalWrite_def emit_def)

lemma pump_chrono_setup_fn: "pump_chrono (setup_fn inp s) = pump_chrono s"
  by (simp add: setup_fn_def Let_def digitalWrite_def emit_def)

lemma diag_mode_setup_fn: "diag_mode (setup_fn inp s) = (disp_present_in inp = LOW)"
  by (simp add: setup_fn_def Let_def digitalWrite_def emit_def)

subsection \<open>Runs of the main loop\<close>

lemma pump_state_diag_screen: "pump_state (diag_screen inp counter s) = pump_state s"
  by (simp add: diag_screen_def emit_def Let_def)

lemma pump_state_diag_screens: "pump_state (diag_screens inp counter s) = pump_state s"
proof (induction inp counter s rule: diag_screens.induct)
  case (1 inp counter s)
  then show ?case
    by (subst diag_screens.simps)
      (simp add: pump_state_diag_screen delay_def emit_def)
qed

lemma pump_state_diagnostic_pass: "pump_state (diagnostic_pass inp s) = pump_state s"
  by (simp add: diagnostic_pass_def pump_state_diag_screens)

lemma pump_state_loop_prime_engaged:
  assumes "pump_state s" and "prime_switch_in inp = LOW" and "loop inp s = Some s'"
  shows "pump_state s'"
proof (cases "diag_mode s")
  case True
  then show ?thesis
    using assms by (auto simp add: loop_def pump_state_diagnostic_pass)
next
  case False
  then have "empty_switch_in inp = HIGH"
    using assms(3) by (cases "empty_switch_in inp") (simp_all add: loop_def tank_empty_alarm_None)
  then have "s' = watering_pass inp s"
    using False assms(3) by (simp add: loop_watering)
  then show ?thesis
    using assms(1,2) by (simp add: pump_state_watering_pass)
qed

lemma pump_state_run_prime_steady:
  assumes "pump_state s" and "prime_steady LOW inps" and "run_loop inps s = Some s'"
  shows "pump_state s'"
  using assms
proof (induction inps arbitrary: s)
  case Nil
  then show ?case by simp
next
  case (Cons inp inps)
  from Cons.prems(3) obtain s1 where
    s1: "loop inp s = Some s1" "run_loop inps s1 = Some s'"
    by (auto split: option.splits)
  have "pump_state s1"
    using Cons.prems(1,2) s1(1) by (auto simp add: prime_steady_def intro: pump_state_loop_prime_engaged)
  moreover have "prime_steady LOW inps"
    using Cons.prems(2) by (simp add: prime_steady_def)
  ultimately show ?case
    using s1(2) by (rule Cons.IH)
qed

lemma run_loop_prime_held:
  assumes "pump_state s" and "\<not> diag_mode s"
    and "\<forall>inp \<in> set inps. empty_switch_in inp = HIGH \<and> prime_switch_in inp = LOW"
  shows "\<exists>s'. run_loop inps s = Some s' \<and> pump_state s' \<and> \<not> diag_mode s' \<and>
           (inps \<noteq> [] \<longrightarrow> pins s' pump = HIGH)"
  using assms
proof (induction inps arbitrary: s)
  case Nil
  then show ?case by simp
next
  case (Cons inp inps)
  let ?s1 = "watering_pass inp s"
  have ret: "loop inp s = Some ?s1"
    using Cons.prems by (simp add: loop_watering)
  have on: "pump_state ?s1"
    using Cons.prems by (simp add: pump_state_watering_pass)
  have op: "\<not> diag_mode ?s1"
    using Cons.prems by (simp add: diag_mode_watering_pass)
  have pin: "pins ?s1 pump = HIGH"
    using on by (simp add: pump_pin_watering_pass level_of_bool_def)
  have rest: "\<forall>inp \<in> set inps. empty_switch_in inp = HIGH \<and> prime_switch_in inp = LOW"
    using Cons.prems by simp
  from Cons.IH [OF on op rest] obtain s' where
    s': "run_loop inps ?s1 = Some s'" "pump_state s'" "\<not> diag_mode s'"
      "inps \<noteq> [] \<longrightarrow> pins s' pump = HIGH"
    by blast
  have "pins s' pump = HIGH"
  proof (cases inps)
    case Nil
    then show ?thesis using s'(1) pin by simp
  next
    case (Cons a list)
    then show ?thesis using s'(4) by simp
  qed
  then show ?case
    using ret s' by simp
qed

section \<open>The claims\<close>

text \<open>
  C1. In a watering pass (no diagnostic mode, water in the tank) in which the cycle timer
  has reached its threshold and the prime switch is disengaged (its pin reads high):
  starting idle, \<^verbatim>\<open>pump_state\<close> after the pass equals the light reading, so darkness
  vetoes the transition into pumping; starting pumping, \<^verbatim>\<open>pump_state\<close> after the pass is
  false whatever the light, so the transition into idle is never vetoed.
\<close>

theorem idle_timer_edge_follows_light:
  assumes "\<not> diag_mode s" and "empty_switch_in inp = HIGH"
    and "cycle_timer_due inp s" and "prime_switch_in inp = HIGH"
  shows "\<exists>s'. loop inp s = Some s' \<and>
           (\<not> pump_state s \<longrightarrow> pump_state s' = light inp) \<and>
           (pump_state s \<longrightarrow> \<not> pump_state s')"
  using assms by (simp add: loop_watering pump_state_watering_pass)

theorem idle_timer_edge_follows_light_witness:
  "\<not> diag_mode idle_example \<and> empty_switch_in day_inputs = HIGH \<and>
   cycle_timer_due day_inputs idle_example \<and> prime_switch_in day_inputs = HIGH \<and>
   (\<exists>s'. loop day_inputs idle_example = Some s' \<and> pump_state s') \<and>
   (\<exists>s'. loop night_inputs idle_example = Some s' \<and> \<not> pump_state s') \<and>
   (\<exists>s'. loop day_inputs pumping_example = Some s' \<and> \<not> pump_state s')"
  using idle_timer_edge_follows_light [of idle_example day_inputs]
    idle_timer_edge_follows_light [of idle_example night_inputs]
    idle_timer_edge_follows_light [of pumping_example day_inputs]
  by (simp add: cycle_timer_due_examples)

text \<open>
  C2. In a watering pass in which the cycle timer has reached its threshold and the prime
  switch is engaged (its pin reads low), \<^verbatim>\<open>pump_state\<close> after the pass is true, whatever
  its value before the pass and whatever the light reading.
\<close>

theorem prime_override_at_timer_edge:
  assumes "\<not> diag_mode s" and "empty_switch_in inp = HIGH"
    and "cycle_timer_due inp s" and "prime_switch_in inp = LOW"
  shows "\<exists>s'. loop inp s = Some s' \<and> pump_state s'"
  using assms by (simp add: loop_watering pump_state_watering_pass)

theorem prime_override_at_timer_edge_witness:
  "\<not> diag_mode idle_example \<and>
   empty_switch_in (night_inputs\<lparr>prime_switch_in := LOW\<rparr>) = HIGH \<and>
   cycle_timer_due (night_inputs\<lparr>prime_switch_in := LOW\<rparr>) idle_example \<and>
   prime_switch_in (night_inputs\<lparr>prime_switch_in := LOW\<rparr>) = LOW \<and>
   \<not> pump_state idle_example \<and> \<not> light (night_inputs\<lparr>prime_switch_in := LOW\<rparr>) \<and>
   (\<exists>s'. loop (night_inputs\<lparr>prime_switch_in := LOW\<rparr>) idle_example = Some s' \<and> pump_state s')"
  using prime_override_at_timer_edge [of idle_example "night_inputs\<lparr>prime_switch_in := LOW\<rparr>"]
  by (simp add: cycle_timer_due_examples)

text \<open>
  C3. Whenever the prime switch is engaged the pump runs continuously: in every watering
  pass the board can reach in which the prime switch reads engaged, the pump output
  written that pass is energized, whatever the light reading and whether or not the cycle
  timer has reached its threshold. The passes the board can reach are those of a life of
  the board: any change of the prime pin resets it, \<^verbatim>\<open>pump_state\<close> starts true, and with
  the prime switch engaged every timer edge forces it true again.
\<close>

theorem prime_engaged_pump_runs:
  assumes "run_loop inps (setup_fn inp0 (power_on t0)) = Some s"
    and "prime_steady LOW (inps @ [inp])"
    and "\<not> diag_mode s" and "empty_switch_in inp = HIGH"
  shows "\<exists>s'. loop inp s = Some s' \<and> pump_state s' \<and>
           writes_to pump (pass_events inp s) = [HIGH] \<and> pins s' pump = HIGH"
proof -
  have boot: "pump_state (setup_fn inp0 (power_on t0))"
    by (simp add: pump_state_setup_fn power_on_def)
  have steady: "prime_steady LOW inps" and engaged: "prime_switch_in inp = LOW"
    using assms(2) by (simp_all add: prime_steady_def)
  have on: "pump_state s"
    using boot steady assms(1) by (rule pump_state_run_prime_steady)
  have after: "pump_state (watering_pass inp s)"
    using on engaged by (simp add: pump_state_watering_pass)
  show ?thesis
    using assms(3,4) after
    by (simp add: loop_watering pump_writes_watering_pass pump_pin_watering_pass
        level_of_bool_def)
qed

theorem prime_engaged_pump_runs_witness:
  "run_loop [] (setup_fn (day_inputs\<lparr>prime_switch_in := LOW\<rparr>) (power_on 0)) =
     Some (setup_fn (day_inputs\<lparr>prime_switch_in := LOW\<rparr>) (power_on 0)) \<and>
   prime_steady LOW ([] @ [night_inputs\<lparr>prime_switch_in := LOW, millis_pump_check := 1000\<rparr>]) \<and>
   \<not> diag_mode (setup_fn (day_inputs\<lparr>prime_switch_in := LOW\<rparr>) (power_on 0)) \<and>
   empty_switch_in (night_inputs\<lparr>prime_switch_in := LOW, millis_pump_check := 1000\<rparr>) = HIGH \<and>
   \<not> light (night_inputs\<lparr>prime_switch_in := LOW, millis_pump_check := 1000\<rparr>) \<and>
   \<not> cycle_timer_due (night_inputs\<lparr>prime_switch_in := LOW, millis_pump_check := 1000\<rparr>)
       (setup_fn (day_inputs\<lparr>prime_switch_in := LOW\<rparr>) (power_on 0)) \<and>
   (\<exists>s'. loop (night_inputs\<lparr>prime_switch_in := LOW, millis_pump_check := 1000\<rparr>)
            (setup_fn (day_inputs\<lparr>prime_switch_in := LOW\<rparr>) (power_on 0)) = Some s' \<and>
      pump_state s' \<and>
      writes_to pump (pass_events (night_inputs\<lparr>prime_switch_in := LOW, millis_pump_check := 1000\<rparr>)
        (setup_fn (day_inputs\<lparr>prime_switch_in := LOW\<rparr>) (power_on 0))) = [HIGH] \<and>
      pins s' pump = HIGH)"
proof -
  have nd: "\<not> diag_mode (setup_fn (day_inputs\<lparr>prime_switch_in := LOW\<rparr>) (power_on 0))"
    by (simp add: diag_mode_setup_fn day_inputs_def)
  have due: "\<not> cycle_timer_due (night_inputs\<lparr>prime_switch_in := LOW, millis_pump_check := 1000\<rparr>)
       (setup_fn (day_inputs\<lparr>prime_switch_in := LOW\<rparr>) (power_on 0))"
    by (simp add: cycle_timer_due_eq pump_state_setup_fn pump_chrono_setup_fn power_on_def
        hasPassed_def elapsed_def pump_time_calc_512)
  have nl: "\<not> light (night_inputs\<lparr>prime_switch_in := LOW, millis_pump_check := 1000\<rparr>)"
    by (simp add: light_def night_inputs_def day_inputs_def dark_thresh_def)
  show ?thesis
    using prime_engaged_pump_runs
      [of "[]" "day_inputs\<lparr>prime_switch_in := LOW\<rparr>" 0
        "setup_fn (day_inputs\<lparr>prime_switch_in := LOW\<rparr>) (power_on 0)"
        "night_inputs\<lparr>prime_switch_in := LOW, millis_pump_check := 1000\<rparr>"]
      nd due nl
    by (simp add: prime_steady_def)
qed

text \<open>
  C7 as stated fails: at the hour mark in the dark, with the prime switch off, the cycle
  timer is restarted and \<^verbatim>\<open>pump_state\<close> stays false.
\<close>

theorem restart_without_toggle_counterexample:
  "\<not> diag_mode idle_example \<and> empty_switch_in night_inputs = HIGH \<and>
   loop night_inputs idle_example = Some (watering_pass night_inputs idle_example) \<and>
   ChronoRestart PumpChrono \<in> set (pass_events night_inputs idle_example) \<and>
   pump_chrono (watering_pass night_inputs idle_example) \<noteq> pump_chrono idle_example \<and>
   pump_state (watering_pass night_inputs idle_example) = pump_state idle_example"
  by (simp add: loop_watering restart_pump_mem pump_chrono_watering_pass
      pump_state_watering_pass cycle_timer_due_examples restart_def)

text \<open>
  C7, amended. In every watering pass the cycle timer is restarted exactly when it has
  reached its threshold. Every change of \<^verbatim>\<open>pump_state\<close> happens in a pass that restarts
  the timer, but not conversely: \<^verbatim>\<open>pump_state\<close> changes exactly when the threshold is
  reached and, starting pumping, the prime switch is disengaged, or, starting idle, the
  prime switch is engaged or it is light.
\<close>

theorem cycle_timer_restart_rule:
  assumes "\<not> diag_mode s" and "empty_switch_in inp = HIGH"
  shows "\<exists>s'. loop inp s = Some s' \<and>
           (ChronoRestart PumpChrono \<in> set (pass_events inp s)) = cycle_timer_due inp s \<and>
           pump_chrono s' =
             (if cycle_timer_due inp s then restart (millis_pump_restart inp) (pump_chrono s)
              else pump_chrono s) \<and>
           (pump_state s' \<noteq> pump_state s \<longrightarrow>
              ChronoRestart PumpChrono \<in> set (pass_events inp s)) \<and>
           (pump_state s' \<noteq> pump_state s) =
             (cycle_timer_due inp s \<and>
              (if pump_state s then prime_switch_in inp \<noteq> LOW
               else prime_switch_in inp = LOW \<or> light inp))"
  using assms
  by (auto simp add: loop_watering restart_pump_mem pump_chrono_watering_pass
      pump_state_watering_pass)

theorem cycle_timer_restart_rule_witness:
  "\<not> diag_mode idle_example \<and> empty_switch_in day_inputs = HIGH \<and>
   (\<exists>s'. loop day_inputs idle_example = Some s' \<and>
      pump_state s' \<noteq> pump_state idle_example \<and>
      ChronoRestart PumpChrono \<in> set (pass_events day_inputs idle_example) \<and>
      pump_chrono s' = \<lparr>start_time = 4000000\<rparr>) \<and>
   (\<exists>s'. loop midcycle_inputs idle_example = Some s' \<and>
      pump_state s' = pump_state idle_example \<and>
      ChronoRestart PumpChrono \<notin> set (pass_events midcycle_inputs idle_example) \<and>
      pump_chrono s' = \<lparr>start_time = 400000\<rparr>)"
  using cycle_timer_restart_rule [of idle_example day_inputs]
    cycle_timer_restart_rule [of idle_example midcycle_inputs]
  by (auto simp add: cycle_timer_due_examples restart_def)

text \<open>
  C8. In every watering pass the LED threshold selected is a function of \<^verbatim>\<open>pump_state\<close>
  (as the pump logic of the same pass leaves it) and \<^verbatim>\<open>led_state\<close>: 500 ms for (true,
  true), 1500 ms for (true, false), 10 ms for (false, true), 2000 ms for (false, false).
  When the LED timer has reached that threshold, the timer is restarted, \<^verbatim>\<open>led_state\<close>
  flips and the LED pin is driven to the logical inverse of the new \<^verbatim>\<open>led_state\<close>.
\<close>

theorem led_threshold_and_toggle:
  assumes "\<not> diag_mode s" and "empty_switch_in inp = HIGH"
  shows "\<exists>s'. loop inp s = Some s' \<and>
           next_led_event s' =
             (if pump_state s' then (if led_state s then 500 else 1500)
              else if led_state s then 10 else 2000) \<and>
           led_timer_due inp s =
             hasPassed (millis_led_check inp) (led_chrono s) (next_led_event s') \<and>
           (led_timer_due inp s \<longrightarrow>
              led_chrono s' = restart (millis_led_restart inp) (led_chrono s) \<and>
              led_state s' = (\<not> led_state s) \<and>
              writes_to signal_led (pass_events inp s) = [level_of_bool (\<not> led_state s')] \<and>
              pins s' signal_led = level_of_bool (\<not> led_state s') \<and>
              ChronoRestart LedChrono \<in> set (pass_events inp s))"
proof -
  let ?s' = "watering_pass inp s"
  have ret: "loop inp s = Some ?s'"
    using assms by (rule loop_watering)
  have thr: "next_led_event ?s' =
      (if pump_state ?s' then (if led_state s then 500 else 1500)
       else if led_state s then 10 else 2000)"
    by (simp add: next_led_event_watering_pass led_on_pumping_def led_off_pumping_def
        led_on_idle_def led_off_idle_def)
  have due: "led_timer_due inp s =
      hasPassed (millis_led_check inp) (led_chrono s) (next_led_event ?s')"
    by (rule led_timer_due_eq)
  have toggle: "led_chrono ?s' = restart (millis_led_restart inp) (led_chrono s) \<and>
      led_state ?s' = (\<not> led_state s) \<and>
      writes_to signal_led (pass_events inp s) = [level_of_bool (\<not> led_state ?s')] \<and>
      pins ?s' signal_led = level_of_bool (\<not> led_state ?s') \<and>
      ChronoRestart LedChrono \<in> set (pass_events inp s)"
    if "led_timer_due inp s"
  proof -
    have "writes_to signal_led (pass_events inp s) = [level_of_bool (\<not> led_state ?s')]"
      using that by (simp add: pass_events_eq writes_to_append pump_def signal_led_def)
    moreover have "ChronoRestart LedChrono \<in> set (pass_events inp s)"
      using that by (simp add: pass_events_eq)
    ultimately show ?thesis
      using that
      by (simp add: led_chrono_watering_pass led_state_watering_pass led_pin_watering_pass)
  qed
  show ?thesis
    using ret thr due toggle by blast
qed


theorem led_threshold_and_toggle_witness:
  "\<not> diag_mode idle_example \<and> \<not> diag_mode pumping_example \<and>
   empty_switch_in night_inputs = HIGH \<and> empty_switch_in midcycle_inputs = HIGH \<and>
   led_timer_due night_inputs idle_example \<and>
   (\<exists>s'. loop night_inputs idle_example = Some s' \<and> \<not> pump_state s' \<and>
      next_led_event s' = 2000 \<and> led_chrono s' = \<lparr>start_time = 4000000\<rparr> \<and>
      led_state s' \<and> writes_to signal_led (pass_events night_inputs idle_example) = [LOW] \<and>
      pins s' signal_led = LOW) \<and>
   (\<exists>s'. loop midcycle_inputs pumping_example = Some s' \<and> pump_state s' \<and>
      next_led_event s' = 500)"
proof -
  have n: "\<not> pump_state (watering_pass night_inputs idle_example)"
    by (simp add: pump_state_watering_pass cycle_timer_due_examples)
  have m: "pump_state (watering_pass midcycle_inputs pumping_example)"
    by (simp add: pump_state_watering_pass cycle_timer_due_examples)
  have d: "led_timer_due night_inputs idle_example"
    using n
    by (simp add: led_timer_due_eq next_led_event_watering_pass led_off_idle_def
        hasPassed_def elapsed_def)
  show ?thesis
    using led_threshold_and_toggle [of idle_example night_inputs]
      led_threshold_and_toggle [of pumping_example midcycle_inputs] n m d
    by (auto simp add: loop_watering restart_def level_of_bool_def)
qed

text \<open>
  C9. In a watering pass in which the cycle timer has not reached its threshold,
  \<^verbatim>\<open>pump_state\<close> is left unchanged whatever the light reading and the prime switch, and
  the pump output written that pass is the unchanged \<^verbatim>\<open>pump_state\<close>.
\<close>

theorem pump_state_held_between_timer_edges:
  assumes "\<not> diag_mode s" and "empty_switch_in inp = HIGH"
    and "\<not> cycle_timer_due inp s"
  shows "\<exists>s'. loop inp s = Some s' \<and> pump_state s' = pump_state s \<and>
           writes_to pump (pass_events inp s) = [level_of_bool (pump_state s)] \<and>
           pins s' pump = level_of_bool (pump_state s)"
  using assms
  by (simp add: loop_watering pump_state_watering_pass pump_writes_watering_pass
      pump_pin_watering_pass)

theorem pump_state_held_between_timer_edges_witness:
  "\<not> diag_mode pumping_example \<and> empty_switch_in (midcycle_inputs\<lparr>ldr_in := 900\<rparr>) = HIGH \<and>
   \<not> cycle_timer_due (midcycle_inputs\<lparr>ldr_in := 900\<rparr>) pumping_example \<and>
   \<not> light (midcycle_inputs\<lparr>ldr_in := 900\<rparr>) \<and>
   (\<exists>s'. loop (midcycle_inputs\<lparr>ldr_in := 900\<rparr>) pumping_example = Some s' \<and> pump_state s' \<and>
      writes_to pump (pass_events (midcycle_inputs\<lparr>ldr_in := 900\<rparr>) pumping_example) = [HIGH] \<and>
      pins s' pump = HIGH)"
  using pump_state_held_between_timer_edges [of pumping_example "midcycle_inputs\<lparr>ldr_in := 900\<rparr>"]
  by (simp add: cycle_timer_due_eq hasPassed_def elapsed_def pump_time_calc_512
      level_of_bool_def light_def dark_thresh_def)

text \<open>
  C4. For every potentiometer reading \<open>r\<close> in [0, 1023] the derived pump time is
  5000 + (595000 * r) / 1023 with integer floor division; it is monotonically
  non-decreasing in \<open>r\<close>, 5000 at 0 and 600000 at 1023. The watering pass and the
  start-up both store this value in \<^verbatim>\<open>pump_time\<close>.
\<close>

theorem pump_time_linear_in_reading:
  assumes "0 \<le> sint r" and "sint r \<le> sint r'" and "sint r' \<le> 1023"
  shows "sint (pump_time_calc r) = 5000 + (595000 * sint r) div 1023 \<and>
         sint (pump_time_calc r) \<le> sint (pump_time_calc r') \<and>
         sint (pump_time_calc 0) = 5000 \<and> sint (pump_time_calc 1023) = 600000 \<and>
         pump_time (watering_pass (inp\<lparr>pump_res_in := r\<rparr>) s) = pump_time_calc r \<and>
         pump_time (setup_fn (inp\<lparr>pump_res_in := r\<rparr>) s) = pump_time_calc r"
proof -
  have r: "sint (pump_time_calc r) = 5000 + (595000 * sint r) div 1023"
    using assms by (intro sint_pump_time_calc) simp_all
  have r': "sint (pump_time_calc r') = 5000 + (595000 * sint r') div 1023"
    using assms by (intro sint_pump_time_calc) simp_all
  have "(595000 * sint r) div 1023 \<le> (595000 * sint r') div 1023"
    using assms by (intro zdiv_mono1) simp_all
  then have mono: "sint (pump_time_calc r) \<le> sint (pump_time_calc r')"
    using r r' by simp
  have ends: "sint (pump_time_calc 0) = 5000" "sint (pump_time_calc 1023) = 600000"
    by (simp_all add: pump_time_calc_def min_time_def max_time_def c_div_def
        signed_divide_int_def)
  show ?thesis
    using r mono ends by (simp add: pump_time_watering_pass pump_time_setup_fn)
qed

theorem pump_time_linear_in_reading_witness:
  "(0::int) \<le> sint (100 :: c_int) \<and> sint (100 :: c_int) \<le> sint (900 :: c_int) \<and>
   sint (900 :: c_int) \<le> 1023 \<and>
   sint (pump_time_calc 100) = 63162 \<and> sint (pump_time_calc 100) \<le> sint (pump_time_calc 900) \<and>
   sint (pump_time (watering_pass (day_inputs\<lparr>pump_res_in := 100\<rparr>) idle_example)) = 63162"
  using pump_time_linear_in_reading
    [where r = 100 and r' = 900 and inp = day_inputs and s = idle_example]
  by simp

text \<open>
  C5 as stated fails: for the reading 512 the derived pump time is not 302414 ms, and
  5000 + (595000 * 512) / 1023 is not 302414 either.
\<close>

theorem mid_scale_pump_time_counterexample:
  "sint (pump_time_calc 512) \<noteq> 302414 \<and>
   5000 + (595000 * 512) div 1023 \<noteq> (302414 :: int) \<and>
   pump_time (watering_pass day_inputs idle_example) \<noteq> 302414"
  by (simp add: pump_time_calc_512 pump_time_watering_pass)

text \<open>
  C5, amended. For the raw potentiometer reading 512 the derived pump time is exactly
  302790 ms, which is 5000 + (595000 * 512) / 1023 with integer floor; for the reading 0
  it is exactly 5000 ms and for 1023 exactly 600000 ms.
\<close>

theorem mid_scale_pump_time:
  "sint (pump_time_calc 0) = 5000 \<and> sint (pump_time_calc 512) = 302790 \<and>
   sint (pump_time_calc 1023) = 600000 \<and>
   sint (pump_time_calc 512) = 5000 + (595000 * 512) div 1023 \<and>
   sint (pump_time (watering_pass (inp\<lparr>pump_res_in := 512\<rparr>) s)) = 302790"
  by (simp add: pump_time_watering_pass pump_time_calc_def min_time_def max_time_def
      c_div_def signed_divide_int_def)

text \<open>
  C6 as stated fails: with the LED wired active-low, the first iteration of the alarm
  loop does not hold the LED off for 20 ms and then on for 500 ms; it holds it on for
  20 ms and then off for 500 ms.
\<close>

theorem alarm_flash_counterexample:
  "\<not> diag_mode idle_example \<and> empty_switch_in (day_inputs\<lparr>empty_switch_in := LOW\<rparr>) = LOW \<and>
   trace (loop_progress 1 (day_inputs\<lparr>empty_switch_in := LOW\<rparr>) idle_example) \<noteq>
     [DigitalWrite signal_led (signal_led_level False), Delay 20,
      DigitalWrite signal_led (signal_led_level True), Delay 500] \<and>
   trace (loop_progress 1 (day_inputs\<lparr>empty_switch_in := LOW\<rparr>) idle_example) =
     [DigitalWrite signal_led (signal_led_level True), Delay 20,
      DigitalWrite signal_led (signal_led_level False), Delay 500]"
  by (simp add: loop_progress_def alarm_iteration_eq signal_led_level_def level_of_bool_def)

text \<open>
  C6, amended. When the tank-empty input reads low outside diagnostic mode, \<^verbatim>\<open>loop()\<close>
  never returns; each iteration of its inner loop holds the status LED on (pin low) for
  20 ms and then off (pin high) for 500 ms, and does nothing else: after \<open>n\<close> iterations
  the effects are \<open>n\<close> copies of that flash, and an iteration changes only the LED pin.
\<close>

theorem alarm_flash_pattern:
  assumes "\<not> diag_mode s" and "empty_switch_in inp = LOW"
  shows "loop inp s = None \<and>
         loop_progress 0 inp s = s \<and>
         loop_progress (Suc n) inp s =
           (loop_progress n inp s)
             \<lparr>pins := (pins (loop_progress n inp s))(signal_led := signal_led_level False),
              trace := trace (loop_progress n inp s) @
                 [DigitalWrite signal_led (signal_led_level True), Delay 20,
                  DigitalWrite signal_led (signal_led_level False), Delay 500]\<rparr> \<and>
         trace (loop_progress n inp s) =
           trace s @ concat (replicate n
             [DigitalWrite signal_led (signal_led_level True), Delay 20,
              DigitalWrite signal_led (signal_led_level False), Delay 500])"
  using assms
  by (simp add: loop_alarm loop_progress_alarm alarm_run_Suc alarm_iteration_eq
      trace_alarm_run signal_led_level_def level_of_bool_def del: alarm_run.simps(2))

theorem alarm_flash_pattern_witness:
  "\<not> diag_mode idle_example \<and> empty_switch_in (day_inputs\<lparr>empty_switch_in := LOW\<rparr>) = LOW \<and>
   loop (day_inputs\<lparr>empty_switch_in := LOW\<rparr>) idle_example = None \<and>
   trace (loop_progress 2 (day_inputs\<lparr>empty_switch_in := LOW\<rparr>) idle_example) =
     [DigitalWrite signal_led LOW, Delay 20, DigitalWrite signal_led HIGH, Delay 500,
      DigitalWrite signal_led LOW, Delay 20, DigitalWrite signal_led HIGH, Delay 500]"
  using alarm_flash_pattern [of idle_example "day_inputs\<lparr>empty_switch_in := LOW\<rparr>" 2]
  by (simp add: signal_led_level_def level_of_bool_def eval_nat_numeral)

text \<open>
  C10. The tank-empty alarm never writes the pump output: on entry and after any number
  of iterations the pump pin holds the value last driven to it, no write to the pump pin
  is among the alarm's effects, and \<^verbatim>\<open>pump_state\<close>, \<^verbatim>\<open>led_state\<close> and both timers are
  unmodified.
\<close>

theorem alarm_leaves_pump_alone:
  assumes "\<not> diag_mode s" and "empty_switch_in inp = LOW"
  shows "loop inp s = None \<and>
         loop_progress 0 inp s = s \<and>
         pins (loop_progress n inp s) pump = pins s pump \<and>
         writes_to pump (drop (length (trace s)) (trace (loop_progress n inp s))) = [] \<and>
         pump_state (loop_progress n inp s) = pump_state s \<and>
         led_state (loop_progress n inp s) = led_state s \<and>
         pump_chrono (loop_progress n inp s) = pump_chrono s \<and>
         led_chrono (loop_progress n inp s) = led_chrono s"
  using assms
  by (simp add: loop_alarm loop_progress_alarm alarm_run_frame trace_alarm_run
      writes_to_pump_flashes)

theorem alarm_leaves_pump_alone_witness:
  "\<not> diag_mode pumping_example \<and>
   empty_switch_in (day_inputs\<lparr>empty_switch_in := LOW\<rparr>) = LOW \<and>
   loop (day_inputs\<lparr>empty_switch_in := LOW\<rparr>) pumping_example = None \<and>
   pins (loop_progress 3 (day_inputs\<lparr>empty_switch_in := LOW\<rparr>) pumping_example) pump = HIGH \<and>
   pump_state (loop_progress 3 (day_inputs\<lparr>empty_switch_in := LOW\<rparr>) pumping_example)"
  using alarm_leaves_pump_alone [of pumping_example "day_inputs\<lparr>empty_switch_in := LOW\<rparr>" 3]
  by (simp add: pumping_example_def pump_def)


section \<open>Further properties\<close>

text \<open>
  Continuous pumping with the prime switch held. From start-up without a display, as long as every pass finds water in the tank and
  the prime switch engaged, every call of \<^verbatim>\<open>loop()\<close> returns, \<^verbatim>\<open>pump_state\<close> stays
  true and each pass leaves the pump pin high: \<^verbatim>\<open>pump_state\<close> is initialised true, and
  every timer edge forces it true again.
\<close>

theorem prime_held_since_reset_keeps_pumping:
  assumes "disp_present_in inp0 = HIGH"
    and "\<forall>inp \<in> set inps. empty_switch_in inp = HIGH \<and> prime_switch_in inp = LOW"
  shows "\<exists>s'. run_loop inps (setup_fn inp0 (power_on t0)) = Some s' \<and> pump_state s' \<and>
           (inps \<noteq> [] \<longrightarrow> pins s' pump = HIGH)"
proof -
  have "pump_state (setup_fn inp0 (power_on t0))"
    by (simp add: pump_state_setup_fn power_on_def)
  moreover have "\<not> diag_mode (setup_fn inp0 (power_on t0))"
    using assms(1) by (simp add: diag_mode_setup_fn)
  ultimately show ?thesis
    using run_loop_prime_held [OF _ _ assms(2)] by blast
qed

theorem prime_held_since_reset_keeps_pumping_witness:
  "disp_present_in day_inputs = HIGH \<and>
   (\<exists>s'. run_loop [midcycle_inputs\<lparr>prime_switch_in := LOW\<rparr>,
                    night_inputs\<lparr>prime_switch_in := LOW\<rparr>]
            (setup_fn day_inputs (power_on 0)) = Some s' \<and>
      pump_state s' \<and> pins s' pump = HIGH)"
  using prime_held_since_reset_keeps_pumping
    [of day_inputs "[midcycle_inputs\<lparr>prime_switch_in := LOW\<rparr>,
                     night_inputs\<lparr>prime_switch_in := LOW\<rparr>]" 0]
  by (simp add: day_inputs_def)

end
